theory Spec2Isabelle
  imports Main "HOL-Library.Sublist" "HOL-Library.AList"
begin

chapter \<open>Scenario identifiers and the master index of the telemetry logger\<close>

text \<open>
  An embedding of \<open>cli/interactive_capture.py\<close>: the generation and the choice of a
  scenario identifier from the contents of the day's log directory, and the upsert of a
  row into the master index CSV. The file system and the CSV file are explicit
  arguments and results; the operator's answers are function arguments; an exception is
  a value of the result.
\<close>

section \<open>Strings, as the Python code uses them\<close>

text \<open>
  A Python \<open>str\<close> is modelled as a \<open>string\<close> whose characters are the code points
  0..255 (ASCII and Latin-1). File names and file contents outside that range are not
  covered by this development.
\<close>

definition LF :: char where
  "LF = CHR 0x0A"

definition CR :: char where
  "CR = CHR 0x0D"

definition is_digit :: "char \<Rightarrow> bool" where
  \<comment> \<open>\<open>\d\<close> of \<open>re\<close> and the digits \<open>int()\<close> accepts, on the code points 0..255\<close>
  "is_digit c = (48 \<le> (of_char c :: nat) \<and> (of_char c :: nat) \<le> 57)"

definition is_space :: "char \<Rightarrow> bool" where
  \<comment> \<open>\<open>str.isspace\<close> on the code points 0..255: TAB, LF, VT, FF, CR, FS, GS, RS, US,
      space, NEL and NBSP\<close>
  "is_space c =
     (let n = (of_char c :: nat)
      in (9 \<le> n \<and> n \<le> 13) \<or> (28 \<le> n \<and> n \<le> 32) \<or> n = 133 \<or> n = 160)"

definition strip :: "string \<Rightarrow> string" where
  \<comment> \<open>\<open>str.strip()\<close>\<close>
  "strip s = rev (dropWhile is_space (rev (dropWhile is_space s)))"

definition digit_val :: "char \<Rightarrow> nat" where
  "digit_val c = of_char c - 48"

definition digit_char :: "nat \<Rightarrow> char" where
  "digit_char d = char_of (48 + d)"

definition nat_of_digits :: "string \<Rightarrow> nat" where
  "nat_of_digits ds = foldl (\<lambda>a c. 10 * a + digit_val c) 0 ds"

fun no_double_underscore :: "string \<Rightarrow> bool" where
  "no_double_underscore (a # b # cs) =
     (\<not> (a = CHR ''_'' \<and> b = CHR ''_'') \<and> no_double_underscore (b # cs))"
| "no_double_underscore cs = True"

definition valid_digits :: "string \<Rightarrow> bool" where
  \<comment> \<open>the digit part \<open>int()\<close> accepts: digits, single underscores between them\<close>
  "valid_digits b =
     (b \<noteq> [] \<and> is_digit (hd b) \<and> is_digit (last b)
      \<and> list_all (\<lambda>c. is_digit c \<or> c = CHR ''_'') b \<and> no_double_underscore b)"

definition py_int :: "string \<Rightarrow> int option" where
  \<comment> \<open>\<open>int(s)\<close> in base 10; \<open>None\<close> is the \<open>ValueError\<close>\<close>
  "py_int s =
     (let t = strip s;
          neg = (t \<noteq> [] \<and> hd t = CHR ''-'');
          b = (if t \<noteq> [] \<and> (hd t = CHR ''-'' \<or> hd t = CHR ''+'') then tl t else t)
      in if valid_digits b
         then Some ((if neg then - 1 else 1) * int (nat_of_digits (filter is_digit b)))
         else None)"

function str_nat :: "nat \<Rightarrow> string" where
  \<comment> \<open>\<open>str(n)\<close> for \<open>n \<ge> 0\<close>\<close>
  "str_nat n = (if n < 10 then [digit_char n] else str_nat (n div 10) @ [digit_char (n mod 10)])"
  by pat_completeness auto
termination
  by (relation "measure id") auto

declare str_nat.simps [simp del]

definition str_int :: "int \<Rightarrow> string" where
  \<comment> \<open>\<open>str(i)\<close>\<close>
  "str_int i = (if i < 0 then CHR ''-'' # str_nat (nat (- i)) else str_nat (nat i))"

definition fmt03d :: "int \<Rightarrow> string" where
  \<comment> \<open>the format \<open>{:03d}\<close>: zero padding to a width of at least three; the sign, when
      there is one, comes before the padding and counts for the width\<close>
  "fmt03d i =
     (if i < 0 then CHR ''-'' # replicate (2 - length (str_nat (nat (- i)))) CHR ''0'' @ str_nat (nat (- i))
      else replicate (3 - length (str_nat (nat i))) CHR ''0'' @ str_nat (nat i))"

fun py_replace :: "string \<Rightarrow> string \<Rightarrow> string \<Rightarrow> string" where
  \<comment> \<open>\<open>s.replace(old, new)\<close> for a non-empty \<open>old\<close>: every occurrence, leftmost first,
      occurrences not overlapping\<close>
  "py_replace old new [] = []"
| "py_replace old new (c # cs) =
     (if old \<noteq> [] \<and> prefix old (c # cs)
      then new @ py_replace old new (drop (length old) (c # cs))
      else c # py_replace old new cs)"

definition rsplit_last :: "char \<Rightarrow> string \<Rightarrow> string" where
  \<comment> \<open>\<open>s.rsplit(sep, 1)[-1]\<close> for a separator of one character\<close>
  "rsplit_last sep s = rev (takeWhile (\<lambda>c. c \<noteq> sep) (rev s))"

definition rfind :: "char \<Rightarrow> string \<Rightarrow> nat option" where
  \<comment> \<open>\<open>s.rfind(c)\<close>; \<open>None\<close> is Python's -1\<close>
  "rfind c s =
     (if c \<in> set s then Some (length s - 1 - length (takeWhile (\<lambda>x. x \<noteq> c) (rev s)))
      else None)"

section \<open>The archive directory\<close>

text \<open>
  \<open>logs_dir\<close> is \<open>None\<close> when the path does not exist, and the list of its entries'
  names, in the order \<open>glob\<close> yields them, when it is a directory (a path that exists
  and is no directory has no entries). A path \<open>logs_dir / name\<close> exists exactly when
  \<open>name\<close> is an entry.
\<close>

type_synonym logs_dir = "string list option"

definition glob_suffix :: "string \<Rightarrow> string list \<Rightarrow> string list" where
  \<comment> \<open>\<open>logs_dir.glob("*" + ext)\<close>: the entries whose name ends with \<open>ext\<close>\<close>
  "glob_suffix ext names = filter (suffix ext) names"

definition date_token :: "string \<Rightarrow> string" where
  "date_token for_date = py_replace ''-'' ''_'' for_date"

definition scn_prefix :: "string \<Rightarrow> string" where
  "scn_prefix for_date = ''SCN_'' @ date_token for_date @ ''_''"

definition pattern_match :: "string \<Rightarrow> string \<Rightarrow> string option" where
  \<comment> \<open>\<open>re.compile(rf"^SCN_{re.escape(date_token)}_(\d{{3}})\.log$").match(name)\<close>, giving
      \<open>m.group(1)\<close>; \<open>$\<close> also matches before one final newline\<close>
  "pattern_match tok name =
     (let p = ''SCN_'' @ tok @ ''_'';
          rest = drop (length p) name
      in if prefix p name \<and> 3 \<le> length rest \<and> list_all is_digit (take 3 rest)
            \<and> (drop 3 rest = ''.log'' \<or> drop 3 rest = ''.log'' @ [LF])
         then Some (take 3 rest) else None)"

fun scan_logs :: "string \<Rightarrow> string list \<Rightarrow> int \<Rightarrow> int" where
  \<comment> \<open>the loop over \<open>logs_dir.glob("*.log")\<close>, the state being \<open>next_idx\<close>\<close>
  "scan_logs tok [] next_idx = next_idx"
| "scan_logs tok (name # names) next_idx =
     (case pattern_match tok name of
        None \<Rightarrow> scan_logs tok names next_idx
      | Some g \<Rightarrow>
          (case py_int g of
             None \<Rightarrow> scan_logs tok names next_idx
           | Some idx \<Rightarrow>
               if idx \<ge> next_idx then scan_logs tok names (idx + 1)
               else scan_logs tok names next_idx))"

definition generate_scenario_id :: "string \<Rightarrow> logs_dir \<Rightarrow> string" where
  "generate_scenario_id for_date logs_dir =
     (let tok = date_token for_date;
          pre = ''SCN_'' @ tok @ ''_'';
          next_idx = (case logs_dir of
                        None \<Rightarrow> 1
                      | Some names \<Rightarrow> scan_logs tok (glob_suffix ''.log'' names) 1)
      in pre @ fmt03d next_idx)"

text \<open>
  The specification's side of \<open>next_identifier\<close>: a name matches the canonical
  pattern of a date when it is the date's prefix, three digits and \<open>.log\<close>; its suffix
  is the number the three digits write.
\<close>

definition canonical :: "string \<Rightarrow> string \<Rightarrow> bool" where
  "canonical for_date name =
     (let p = scn_prefix for_date
      in length name = length p + 7 \<and> take (length p) name = p
         \<and> list_all is_digit (take 3 (drop (length p) name))
         \<and> drop (length p + 3) name = ''.log'')"

definition log_suffix :: "string \<Rightarrow> string \<Rightarrow> int" where
  "log_suffix for_date name = int (nat_of_digits (take 3 (drop (length (scn_prefix for_date)) name)))"

definition existing_suffixes :: "string \<Rightarrow> string list \<Rightarrow> int list" where
  "existing_suffixes for_date names = map (log_suffix for_date) (filter (canonical for_date) names)"

section \<open>Pending scenarios and the choice of an identifier\<close>

definition stem :: "string \<Rightarrow> string" where
  \<comment> \<open>\<open>Path.stem\<close> of a file name: the name without its last suffix\<close>
  "stem name =
     (case rfind CHR ''.'' name of
        None \<Rightarrow> name
      | Some i \<Rightarrow> if 0 < i \<and> i < length name - 1 then take i name else name)"

definition scenario_id_of :: "string \<Rightarrow> string" where
  \<comment> \<open>\<open>metadata_path.stem.replace(".metadata", "")\<close>\<close>
  "scenario_id_of metadata_name = py_replace ''.metadata'' [] (stem metadata_name)"

fun scan_metadata :: "string list \<Rightarrow> string \<Rightarrow> string list \<Rightarrow> string list" where
  \<comment> \<open>the loop over \<open>logs_dir.glob("*.metadata.json")\<close>; \<open>names\<close> are the entries of the
      directory, the result is \<open>candidates\<close>\<close>
  "scan_metadata names for_date [] = []"
| "scan_metadata names for_date (metadata_name # rest) =
     (let scenario_id = scenario_id_of metadata_name
      in if scenario_id @ ''.log'' \<notin> set names
            \<and> prefix (''SCN_'' @ date_token for_date @ ''_'') scenario_id
         then scenario_id # scan_metadata names for_date rest
         else scan_metadata names for_date rest)"

definition suffix_num :: "string \<Rightarrow> int" where
  \<comment> \<open>the sort key: \<open>int(sid.rsplit("_", 1)[-1])\<close>, and 0 when that raises\<close>
  "suffix_num sid = (case py_int (rsplit_last CHR ''_'' sid) of Some n \<Rightarrow> n | None \<Rightarrow> 0)"

definition list_metadata_only_scenarios :: "logs_dir \<Rightarrow> string \<Rightarrow> string list" where
  \<comment> \<open>\<open>list.sort(key=...)\<close> is stable, as \<open>sort_key\<close> is\<close>
  "list_metadata_only_scenarios logs_dir for_date =
     (case logs_dir of
        None \<Rightarrow> []
      | Some names \<Rightarrow>
          sort_key suffix_num
            (scan_metadata names for_date (glob_suffix ''.metadata.json'' names)))"



text \<open>
  The two prompts of \<open>choose_or_generate_scenario_id\<close> are the operator's answers:
  \<open>prompt_yes_no\<close> gives a truth value for the identifier it is asked about, and
  \<open>prompt_select_from_list\<close> gives one of the options or \<open>None\<close> ("create a new one").
\<close>

definition choose_or_generate_scenario_id ::
  "(string \<Rightarrow> bool) \<Rightarrow> (string list \<Rightarrow> string option) \<Rightarrow> string \<Rightarrow> logs_dir \<Rightarrow> string" where
  "choose_or_generate_scenario_id prompt_yes_no prompt_select_from_list for_date logs_dir =
     (let existing = list_metadata_only_scenarios logs_dir for_date
      in if length existing = 1 then
           (if prompt_yes_no (existing ! 0) then existing ! 0
            else generate_scenario_id for_date logs_dir)
         else if length existing > 1 then
           (case prompt_select_from_list existing of
              Some selected \<Rightarrow>
                if selected \<noteq> [] then selected else generate_scenario_id for_date logs_dir
            | None \<Rightarrow> generate_scenario_id for_date logs_dir)
         else generate_scenario_id for_date logs_dir)"

section \<open>The archived file of a scenario\<close>

text \<open>
  \<open>log_path\<close> is \<open>None\<close> when the file does not exist; otherwise it is a readable text
  file with the size \<open>stat\<close> reports and its decoded text.
\<close>

record log_file =
  st_size :: nat
  contents :: string

fun lines_from :: "string \<Rightarrow> string \<Rightarrow> string list" where
  \<comment> \<open>iterating a file opened in text mode with universal newlines: a line ends at
      \<open>\n\<close>, \<open>\r\n\<close> or \<open>\r\<close>, each read as \<open>\n\<close>; \<open>cur\<close> is the line being read\<close>
  "lines_from cur [] = (if cur = [] then [] else [cur])"
| "lines_from cur (c # cs) =
     (if c = LF then (cur @ [LF]) # lines_from [] cs
      else if c = CR then
        (case cs of
           [] \<Rightarrow> [cur @ [LF]]
         | d # ds \<Rightarrow> if d = LF then (cur @ [LF]) # lines_from [] ds
                     else (cur @ [LF]) # lines_from [] cs)
      else lines_from (cur @ [c]) cs)"

definition file_lines :: "string \<Rightarrow> string list" where
  "file_lines text = lines_from [] text"

definition file_size_of :: "log_file option \<Rightarrow> int" where
  \<comment> \<open>\<open>log_path.stat().st_size if log_path.exists() else 0\<close>\<close>
  "file_size_of log_path = (case log_path of None \<Rightarrow> 0 | Some f \<Rightarrow> int (st_size f))"

definition record_count_of :: "log_file option \<Rightarrow> int" where
  \<comment> \<open>\<open>sum(1 for line in f if line.strip())\<close> when the file exists, else 0\<close>
  "record_count_of log_path =
     (case log_path of
        None \<Rightarrow> 0
      | Some f \<Rightarrow> sum_list (map (\<lambda>line. 1) (filter (\<lambda>line. strip line \<noteq> []) (file_lines (contents f)))))"

section \<open>The master index\<close>

text \<open>
  The index file is \<open>None\<close> when it does not exist or has size 0, and otherwise the
  records \<open>csv.reader\<close> parses from it, each a list of cells, the header first. The
  file is one that the reader parses, and reading and writing CSV text is taken to be
  lossless on cells.

  A row is the \<open>dict\<close> that \<open>csv.DictReader\<close> yields or that the code builds: \<open>cols\<close>
  are its string keys with their values, in insertion order, and \<open>restkey\<close> is the
  entry under the key \<open>None\<close>, which \<open>DictReader\<close> adds for a record longer than the
  header.
\<close>

datatype pyval = PNone | PStr string | PInt int

record row =
  cols :: "(string \<times> pyval) list"
  restkey :: "string list option"

datatype py_error = ValueError

type_synonym csv_table = "string list list"

type_synonym index_file = "csv_table option"

definition row_get :: "row \<Rightarrow> string \<Rightarrow> pyval" where
  \<comment> \<open>\<open>r.get(key)\<close>\<close>
  "row_get r key = (case map_of (cols r) key of None \<Rightarrow> PNone | Some v \<Rightarrow> v)"

definition truthy :: "pyval \<Rightarrow> bool" where
  "truthy v = (case v of PNone \<Rightarrow> False | PStr s \<Rightarrow> s \<noteq> [] | PInt i \<Rightarrow> i \<noteq> 0)"

definition fieldnames :: "string list" where
  "fieldnames =
     [''date'', ''filename'', ''file_size'', ''record_count'', ''metadata_file'',
      ''created_at'', ''test_description'', ''log_link'', ''metadata_link'']"

definition dict_row :: "string list \<Rightarrow> string list \<Rightarrow> row" where
  \<comment> \<open>\<open>DictReader.__next__\<close>: \<open>dict(zip(fieldnames, row))\<close>, then the cells past the
      header under \<open>restkey\<close>, or \<open>restval = None\<close> for the columns the record lacks\<close>
  "dict_row header cells =
     (let d = fold (\<lambda>(k, v). AList.update k (PStr v)) (zip header cells) []
      in if length header < length cells
         then \<lparr>cols = d, restkey = Some (drop (length header) cells)\<rparr>
         else if length header > length cells
         then \<lparr>cols = fold (\<lambda>k. AList.update k PNone) (drop (length cells) header) d,
               restkey = None\<rparr>
         else \<lparr>cols = d, restkey = None\<rparr>)"

definition read_index :: "index_file \<Rightarrow> row list" where
  \<comment> \<open>the rows loaded from the index; \<open>DictReader\<close> takes the first record as the
      header and skips empty records\<close>
  "read_index index =
     (case index of
        None \<Rightarrow> []
      | Some [] \<Rightarrow> []
      | Some (header # records) \<Rightarrow> map (dict_row header) (filter (\<lambda>r. r \<noteq> []) records))"

record update_args =
  REPO_GITHUB_PATH :: string
  date_str :: string
  time_str :: string
  scenario_id :: string
  test_type :: string
  log_path :: string
  log_state :: "log_file option"
  metadata_path :: string

text \<open>
  \<open>log_path\<close> and \<open>metadata_path\<close> are the paths' \<open>as_posix()\<close> strings, \<open>log_state\<close>
  is what the file system holds at \<open>log_path\<close>, and \<open>REPO_GITHUB_PATH\<close> is the module's
  global.
\<close>

definition link :: "string \<Rightarrow> string \<Rightarrow> string" where
  "link repo posix =
     (if repo \<noteq> [] then ''https://github.com/'' @ repo @ ''/blob/main/'' @ posix else [])"

definition created_at_now :: "update_args \<Rightarrow> string" where
  "created_at_now a = date_str a @ ''T'' @ time_str a @ '':00Z''"

definition new_row :: "update_args \<Rightarrow> pyval \<Rightarrow> row" where
  \<comment> \<open>the dict literal of both branches, \<open>created_at_value\<close> being the second argument\<close>
  "new_row a created_at_value =
     \<lparr>cols =
        [(''date'', PStr (date_str a)),
         (''filename'', PStr (scenario_id a @ ''.log'')),
         (''file_size'', PInt (file_size_of (log_state a))),
         (''record_count'', PInt (record_count_of (log_state a))),
         (''metadata_file'', PStr (scenario_id a @ ''.metadata.json'')),
         (''created_at'', created_at_value),
         (''test_description'', PStr (test_type a)),
         (''log_link'', PStr (link (REPO_GITHUB_PATH a) (log_path a))),
         (''metadata_link'', PStr (link (REPO_GITHUB_PATH a) (metadata_path a)))],
      restkey = None\<rparr>"

fun first_index :: "('a \<Rightarrow> bool) \<Rightarrow> 'a list \<Rightarrow> nat option" where
  \<comment> \<open>\<open>next((i for i, r in enumerate(rows) if P r), None)\<close>\<close>
  "first_index P [] = None"
| "first_index P (x # xs) = (if P x then Some 0 else map_option Suc (first_index P xs))"

definition keyed :: "string \<Rightarrow> row \<Rightarrow> bool" where
  \<comment> \<open>\<open>r.get("filename") == filename\<close>\<close>
  "keyed filename r = (row_get r ''filename'' = PStr filename)"

definition upsert_rows :: "update_args \<Rightarrow> row list \<Rightarrow> row list" where
  \<comment> \<open>from the search for the existing row to the update in place or the append\<close>
  "upsert_rows a rows =
     (let filename = scenario_id a @ ''.log'';
          existing_idx = first_index (keyed filename) rows;
          created_at_value = PStr (created_at_now a)
      in case existing_idx of
           Some i \<Rightarrow>
             (let existing = rows ! i;
                  created_at_value =
                    (if truthy (row_get existing ''created_at'')
                     then row_get existing ''created_at'' else created_at_value)
              in rows[i := new_row a created_at_value])
         | None \<Rightarrow> rows @ [new_row a created_at_value])"

definition wrong_fields :: "row \<Rightarrow> bool" where
  \<comment> \<open>\<open>rowdict.keys() - self.fieldnames\<close> is not empty\<close>
  "wrong_fields r =
     (restkey r \<noteq> None \<or> list_ex (\<lambda>k. k \<notin> set fieldnames) (map fst (cols r)))"

definition cell_str :: "pyval \<Rightarrow> string" where
  \<comment> \<open>what \<open>csv.writer\<close> writes for a value: nothing for \<open>None\<close>, \<open>str\<close> of a number\<close>
  "cell_str v = (case v of PNone \<Rightarrow> [] | PStr s \<Rightarrow> s | PInt i \<Rightarrow> str_int i)"

definition dict_to_list :: "row \<Rightarrow> string list" where
  \<comment> \<open>\<open>rowdict.get(key, restval)\<close> for each key of \<open>fieldnames\<close>, \<open>restval\<close> being
      the empty string\<close>
  "dict_to_list r = map (\<lambda>key. cell_str (row_get r key)) fieldnames"

fun writerows :: "row list \<Rightarrow> csv_table \<times> py_error option" where
  \<comment> \<open>\<open>DictWriter.writerows\<close>: the records written, and the \<open>ValueError\<close> raised at the
      first row with a key outside \<open>fieldnames\<close>; the rows before it are written\<close>
  "writerows [] = ([], None)"
| "writerows (r # rs) =
     (if wrong_fields r then ([], Some ValueError)
      else (case writerows rs of (written, err) \<Rightarrow> (dict_to_list r # written, err)))"

definition update_master_index :: "update_args \<Rightarrow> index_file \<Rightarrow> py_error option \<times> index_file" where
  \<comment> \<open>the result is the exception raised, if any, and the index file the call leaves:
      opened for writing, the header written, then the rows\<close>
  "update_master_index a index =
     (let rows = upsert_rows a (read_index index)
      in case writerows rows of (written, err) \<Rightarrow> (err, Some (fieldnames # written)))"

text \<open>
  The row the update branch stores in place of \<open>existing\<close>: the new row, with the
  creation timestamp of \<open>existing\<close> when that is truthy.
\<close>

definition stored_row :: "update_args \<Rightarrow> row \<Rightarrow> row" where
  "stored_row a existing =
     new_row a (if truthy (row_get existing ''created_at'')
                then row_get existing ''created_at'' else PStr (created_at_now a))"

text \<open>
  The row \<open>read_index\<close> gives back for the record that the writer writes for \<open>r\<close>.
\<close>

definition reread :: "row \<Rightarrow> row" where
  "reread r = dict_row fieldnames (dict_to_list r)"

text \<open>
  The check of the header that \<open>backfill_index_links.main\<close> makes before it rewrites
  the index.
\<close>

definition required_columns :: "string list" where
  "required_columns = [''date'', ''filename'', ''metadata_file'', ''log_link'', ''metadata_link'']"

definition missing_columns :: "index_file \<Rightarrow> string list" where
  \<comment> \<open>\<open>[c for c in required if c not in fieldnames]\<close> on the header of an index that
      exists and is not empty; \<open>main\<close> returns 1 without writing when the list is not
      empty\<close>
  "missing_columns index =
     (case index of
        None \<Rightarrow> []
      | Some [] \<Rightarrow> required_columns
      | Some (header # records) \<Rightarrow> filter (\<lambda>c. c \<notin> set header) required_columns)"

text \<open>An example call and an example index, for the concrete instances below.\<close>

definition example_args :: update_args where
  "example_args =
     \<lparr>REPO_GITHUB_PATH = ''owner/repo'', date_str = ''2025-08-12'', time_str = ''10:00'',
      scenario_id = ''SCN_2025_08_12_001'', test_type = ''Throttle test'',
      log_path = ''logs/2025-08-12/SCN_2025_08_12_001.log'',
      log_state = Some \<lparr>st_size = 12, contents = ''1,2'' @ [LF] @ ''  '' @ [CR, LF] @ ''3,4'' @ [LF]\<rparr>,
      metadata_path = ''logs/2025-08-12/SCN_2025_08_12_001.metadata.json''\<rparr>"

definition example_index :: index_file where
  "example_index =
     Some [[''date'', ''filename'', ''file_size'', ''record_count'', ''metadata_file'',
            ''created_at'', ''test_description'', ''log_link'', ''metadata_link''],
           [''2025-08-11'', ''SCN_2025_08_11_001.log'', ''7'', ''1'',
            ''SCN_2025_08_11_001.metadata.json'', ''2025-08-11T08:00:00Z'', ''Idle'', [], []],
           [''2025-08-12'', ''SCN_2025_08_12_001.log'', ''0'', ''0'',
            ''SCN_2025_08_12_001.metadata.json'', ''2025-08-12T09:00:00Z'', ''Pending'', [], []]]"

definition example_rows :: "row list" where
  "example_rows = read_index example_index"

definition duplicate_index :: index_file where
  "duplicate_index =
     Some [[''filename'', ''created_at''],
           [''SCN_2025_08_12_001.log'', ''2025-08-12T09:00:00Z''],
           [''SCN_2025_08_12_001.log'', ''2025-08-12T09:30:00Z'']]"

definition duplicate_rows :: "row list" where
  "duplicate_rows = read_index duplicate_index"


text \<open>An index file whose header lacks columns of the schema.\<close>

definition short_index :: index_file where
  "short_index = Some [[''date'', ''filename''], [''2025-08-11'', ''SCN_2025_08_11_001.log'']]"

section \<open>Identifier generation\<close>

lemma canonical_iff:
  "canonical d name \<longleftrightarrow>
     (\<exists>ds. length ds = 3 \<and> list_all is_digit ds \<and> name = scn_prefix d @ ds @ ''.log'')"
proof
  assume c: "canonical d name"
  let ?p = "scn_prefix d"
  from c have len: "length name = length ?p + 7" and tk: "take (length ?p) name = ?p"
    and dg: "list_all is_digit (take 3 (drop (length ?p) name))"
    and dr: "drop (length ?p + 3) name = ''.log''"
    by (simp_all add: canonical_def Let_def)
  have e1: "drop 3 (drop (length ?p) name) = ''.log''" using dr by (simp add: add.commute)
  have "take (length ?p) name @ take 3 (drop (length ?p) name) @ drop 3 (drop (length ?p) name) = name"
    by (simp only: append_take_drop_id)
  then have "name = ?p @ take 3 (drop (length ?p) name) @ ''.log''"
    by (simp only: tk e1)
  moreover have "length (take 3 (drop (length ?p) name)) = 3" using len by simp
  ultimately show "\<exists>ds. length ds = 3 \<and> list_all is_digit ds \<and> name = ?p @ ds @ ''.log''"
    using dg by blast
next
  assume "\<exists>ds. length ds = 3 \<and> list_all is_digit ds \<and> name = scn_prefix d @ ds @ ''.log''"
  then show "canonical d name"
    by (auto simp: canonical_def Let_def)
qed

lemma not_space_digit: "is_digit c \<Longrightarrow> \<not> is_space c"
  by (auto simp: is_digit_def is_space_def Let_def)

lemma strip_digits: "ds \<noteq> [] \<Longrightarrow> list_all is_digit ds \<Longrightarrow> strip ds = ds"
proof -
  assume ne: "ds \<noteq> []" and dg: "list_all is_digit ds"
  then have h: "\<not> is_space (hd ds)" and l: "\<not> is_space (last ds)"
    by (auto simp: list_all_iff not_space_digit)
  from ne h have a: "dropWhile is_space ds = ds" by (cases ds) auto
  from ne l have b: "dropWhile is_space (rev ds) = rev ds"
    by (cases "rev ds") (auto simp: last_rev hd_rev[symmetric] simp del: rev_is_Nil_conv dest: arg_cong[where f=hd])
  show ?thesis by (simp add: strip_def a b)
qed

lemma no_double_underscore_digits: "list_all is_digit ds \<Longrightarrow> no_double_underscore ds"
  by (induction ds rule: no_double_underscore.induct) (auto simp: is_digit_def)

lemma py_int_digits:
  assumes "ds \<noteq> []" "list_all is_digit ds"
  shows "py_int ds = Some (int (nat_of_digits ds))"
proof -
  have s: "strip ds = ds" using assms by (rule strip_digits)
  have hdd: "is_digit (hd ds)" "is_digit (last ds)" using assms by (auto simp: list_all_iff)
  then have sg: "hd ds \<noteq> CHR ''-''" "hd ds \<noteq> CHR ''+''" by (auto simp: is_digit_def)
  have v: "valid_digits ds"
    using assms hdd no_double_underscore_digits[OF assms(2)]
    by (auto simp: valid_digits_def list_all_iff)
  have f: "filter is_digit ds = ds" using assms(2) by (simp add: list_all_iff)
  show ?thesis by (simp add: py_int_def s sg v f Let_def)
qed


lemma prefix_iff_take: "prefix p name \<longleftrightarrow> take (length p) name = p"
  by (metis append_eq_conv_conj prefix_def append_take_drop_id)

lemma canonical_suffix_log: "canonical d name \<Longrightarrow> suffix ''.log'' name"
  unfolding canonical_iff suffix_def by (metis append.assoc)

lemma pattern_match_unfold:
  "pattern_match (date_token d) name =
     (if prefix (scn_prefix d) name \<and> 3 \<le> length (drop (length (scn_prefix d)) name)
         \<and> list_all is_digit (take 3 (drop (length (scn_prefix d)) name))
         \<and> (drop 3 (drop (length (scn_prefix d)) name) = ''.log''
              \<or> drop 3 (drop (length (scn_prefix d)) name) = ''.log'' @ [LF])
      then Some (take 3 (drop (length (scn_prefix d)) name)) else None)"
  by (simp add: pattern_match_def scn_prefix_def Let_def)

lemma pattern_match_log:
  assumes "suffix ''.log'' name"
  shows "pattern_match (date_token d) name =
           (if canonical d name then Some (take 3 (drop (length (scn_prefix d)) name)) else None)"
proof -
  let ?p = "scn_prefix d"
  let ?rest = "drop (length ?p) name"
  have nolf: "drop 3 ?rest \<noteq> ''.log'' @ [LF]"
  proof
    assume e: "drop 3 ?rest = ''.log'' @ [LF]"
    have "drop (3 + length ?p) name = ''.log'' @ [LF]" using e by simp
    then have "suffix (''.log'' @ [LF]) name" by (metis suffix_drop)
    then have "last name = LF" by (auto simp: suffix_def)
    moreover from assms have "last name = CHR ''g''" by (auto simp: suffix_def)
    ultimately show False by (simp add: LF_def)
  qed
  have len: "(3 \<le> length ?rest \<and> drop 3 ?rest = ''.log'') \<longleftrightarrow>
             (length name = length ?p + 7 \<and> drop (length ?p + 3) name = ''.log'')"
  proof -
    have l: "length (drop (length ?p + 3) name) = length name - (length ?p + 3)" by simp
    have d: "drop 3 ?rest = drop (length ?p + 3) name" by (simp add: add.commute)
    show ?thesis
    proof
      assume a: "3 \<le> length ?rest \<and> drop 3 ?rest = ''.log''"
      then have "drop (length ?p + 3) name = ''.log''" using d by simp
      moreover from this l have "length name - (length ?p + 3) = 4" by simp
      ultimately show "length name = length ?p + 7 \<and> drop (length ?p + 3) name = ''.log''"
        by simp
    next
      assume "length name = length ?p + 7 \<and> drop (length ?p + 3) name = ''.log''"
      then show "3 \<le> length ?rest \<and> drop 3 ?rest = ''.log''" using d by simp
    qed
  qed
  have c: "(prefix ?p name \<and> 3 \<le> length ?rest \<and> list_all is_digit (take 3 ?rest)
             \<and> (drop 3 ?rest = ''.log'' \<or> drop 3 ?rest = ''.log'' @ [LF])) \<longleftrightarrow> canonical d name"
    unfolding canonical_def Let_def prefix_iff_take using nolf len by blast
  show ?thesis
    unfolding pattern_match_unfold c by (rule refl)
qed


lemma canonical_digits:
  "canonical d name \<Longrightarrow>
     take 3 (drop (length (scn_prefix d)) name) \<noteq> [] \<and>
     list_all is_digit (take 3 (drop (length (scn_prefix d)) name))"
  by (auto simp: canonical_def Let_def)

lemma Max_insert_absorb:
  fixes a b :: int
  assumes "finite S" "a \<le> b"
  shows "Max (insert a (insert b S)) = Max (insert b S)"
proof -
  have "b \<le> Max (insert b S)" using assms(1) by simp
  then have "a \<le> Max (insert b S)" using assms(2) by linarith
  moreover have "Max (insert a (insert b S)) = max a (Max (insert b S))"
    using assms(1) by (intro Max_insert) simp_all
  ultimately show ?thesis by (simp only: max_absorb2)
qed

lemma scan_logs_max:
  "list_all (suffix ''.log'') names \<Longrightarrow>
   scan_logs (date_token d) names n =
     Max (insert n ((\<lambda>i. i + 1) ` set (existing_suffixes d names)))"
proof (induction names arbitrary: n)
  case Nil
  then show ?case by (simp add: existing_suffixes_def)
next
  case (Cons name names)
  then have sfx: "suffix ''.log'' name" and rest: "list_all (suffix ''.log'') names"
    by simp_all
  note IH = Cons.IH[OF rest]
  show ?case
  proof (cases "canonical d name")
    case False
    then show ?thesis
      by (simp add: pattern_match_log[OF sfx] IH existing_suffixes_def)
  next
    case True
    let ?idx = "log_suffix d name"
    have pi: "py_int (take 3 (drop (length (scn_prefix d)) name)) = Some ?idx"
      using canonical_digits[OF True] by (simp add: py_int_digits log_suffix_def)
    have es: "existing_suffixes d (name # names) = ?idx # existing_suffixes d names"
      using True by (simp add: existing_suffixes_def)
    let ?S = "(\<lambda>i. i + 1) ` set (existing_suffixes d names)"
    have fin: "finite ?S" by simp
    show ?thesis
    proof (cases "?idx \<ge> n")
      case True
      then have "Max (insert n (insert (?idx + 1) ?S)) = Max (insert (?idx + 1) ?S)"
        using fin by (intro Max_insert_absorb) simp_all
      then show ?thesis
        using True by (simp add: pattern_match_log[OF sfx] \<open>canonical d name\<close> pi IH es)
    next
      case False
      then have "Max (insert (?idx + 1) (insert n ?S)) = Max (insert n ?S)"
        using fin by (intro Max_insert_absorb) simp_all
      then have "Max (insert n (insert (?idx + 1) ?S)) = Max (insert n ?S)"
        by (simp only: insert_commute)
      then show ?thesis
        using False by (simp add: pattern_match_log[OF sfx] \<open>canonical d name\<close> pi IH es insert_commute)
    qed
  qed
qed


lemma existing_suffixes_glob:
  "existing_suffixes d (glob_suffix ''.log'' names) = existing_suffixes d names"
proof -
  have "filter (canonical d) (filter (suffix ''.log'') names) = filter (canonical d) names"
    by (induction names) (auto dest: canonical_suffix_log)
  then show ?thesis by (simp add: existing_suffixes_def glob_suffix_def)
qed


lemma existing_suffixes_nonneg: "i \<in> set (existing_suffixes d names) \<Longrightarrow> 0 \<le> i"
  by (auto simp: existing_suffixes_def log_suffix_def)

lemma Max_insert_one_Suc:
  fixes xs :: "int list"
  assumes "xs \<noteq> []" "\<And>i. i \<in> set xs \<Longrightarrow> 0 \<le> i"
  shows "Max (insert 1 ((\<lambda>i. i + 1) ` set xs)) = Max (set xs) + 1"
proof -
  let ?S = "(\<lambda>i. i + 1) ` set xs"
  have ne: "?S \<noteq> {}" and fin: "finite ?S" using assms(1) by simp_all
  have m: "Max ?S = Max (set xs) + 1"
    using assms(1) by (intro mono_Max_commute[symmetric]) (auto simp: mono_def)
  have "Max (set xs) \<in> set xs" using assms(1) by (intro Max_in) simp_all
  then have "0 \<le> Max (set xs)" by (rule assms(2))
  then have "1 \<le> Max ?S" using m by simp
  moreover have "Max (insert 1 ?S) = max 1 (Max ?S)" by (rule Max_insert[OF fin ne])
  ultimately show ?thesis using m by (simp add: max_absorb2)
qed

lemma next_idx_eq:
  "scan_logs (date_token d) (glob_suffix ''.log'' names) 1 =
     (if existing_suffixes d names = [] then 1 else Max (set (existing_suffixes d names)) + 1)"
proof -
  have "list_all (suffix ''.log'') (glob_suffix ''.log'' names)"
    by (simp add: glob_suffix_def list_all_iff)
  then have "scan_logs (date_token d) (glob_suffix ''.log'' names) 1 =
      Max (insert 1 ((\<lambda>i. i + 1) ` set (existing_suffixes d names)))"
    by (simp add: scan_logs_max existing_suffixes_glob)
  also have "\<dots> = (if existing_suffixes d names = [] then 1 else Max (set (existing_suffixes d names)) + 1)"
    using Max_insert_one_Suc[of "existing_suffixes d names"] existing_suffixes_nonneg[of _ d names]
    by auto
  finally show ?thesis .
qed



lemma generate_scenario_id_Some:
  "generate_scenario_id d (Some names) =
     scn_prefix d @ fmt03d (if existing_suffixes d names = [] then 1
                            else Max (set (existing_suffixes d names)) + 1)"
  by (simp add: generate_scenario_id_def scn_prefix_def next_idx_eq Let_def)


lemma digit_val_le: "is_digit c \<Longrightarrow> digit_val c \<le> 9"
  unfolding is_digit_def digit_val_def by linarith

lemma nat_of_digits3: "nat_of_digits [a, b, c] = 100 * digit_val a + 10 * digit_val b + digit_val c"
  by (simp add: nat_of_digits_def)

lemma log_suffix_le:
  assumes "canonical d name"
  shows "log_suffix d name \<le> 999"
proof -
  from assms obtain ds where ds: "length ds = 3" "list_all is_digit ds"
    and n: "name = scn_prefix d @ ds @ ''.log''"
    unfolding canonical_iff by blast
  from ds(1) obtain a b c where abc: "ds = [a, b, c]"
    by (cases ds; cases "tl ds"; cases "tl (tl ds)") auto
  have "nat_of_digits ds \<le> 999"
    using ds(2) digit_val_le[of a] digit_val_le[of b] digit_val_le[of c]
    by (simp add: abc nat_of_digits3)
  moreover have "take 3 (drop (length (scn_prefix d)) name) = ds"
    using ds(1) by (simp add: n)
  ultimately show ?thesis by (simp add: log_suffix_def)
qed

lemma canonical_999: "canonical d (scn_prefix d @ ''999.log'')"
  unfolding canonical_iff by (rule exI[of _ "''999''"]) (simp add: is_digit_def)

lemma log_suffix_999: "log_suffix d (scn_prefix d @ ''999.log'') = 999"
  by (simp add: log_suffix_def nat_of_digits_def digit_val_def)

lemma fmt03d_1000: "fmt03d 1000 = ''1000''"
  by code_simp

lemma generate_after_999:
  assumes "scn_prefix d @ ''999.log'' \<in> set names"
  shows "generate_scenario_id d (Some names) = scn_prefix d @ ''1000''"
proof -
  let ?es = "existing_suffixes d names"
  have mem: "999 \<in> set ?es"
    using assms canonical_999[of d] log_suffix_999[of d]
    by (force simp: existing_suffixes_def)
  have le: "\<And>i. i \<in> set ?es \<Longrightarrow> i \<le> 999"
    by (auto simp: existing_suffixes_def log_suffix_le)
  have "Max (set ?es) = 999"
    using mem le by (intro Max_eqI) auto
  moreover have "?es \<noteq> []" using mem by auto
  ultimately show ?thesis
    using generate_scenario_id_Some[of d names] by (simp add: fmt03d_1000)
qed

lemma pattern_match_three:
  "pattern_match tok name = Some g \<Longrightarrow> length g = 3 \<and> list_all is_digit g"
  by (auto simp: pattern_match_def Let_def split: if_splits)

lemma pattern_match_1000: "pattern_match (date_token d) (scn_prefix d @ ''1000.log'') = None"
  unfolding pattern_match_unfold by (simp add: LF_def)

text \<open>
  Claim C9. The pattern accepts three digits only (what it captures is three digits
  long, and the name with suffix \<open>1000\<close> does not match), while the format \<open>03d\<close> pads to at least three digits: in a directory
  that holds \<open>SCN_<date>_999.log\<close> the result is \<open>SCN_<date>_1000\<close>, and when
  \<open>SCN_<date>_1000.log\<close> is there too the result is that same identifier, whose
  \<open>.log\<close> file already exists.
\<close>

theorem generate_scenario_id_rollover:
  "(pattern_match tok name = Some g \<longrightarrow> length g = 3 \<and> list_all is_digit g)
   \<and> pattern_match (date_token d) (scn_prefix d @ ''1000.log'') = None
   \<and> (scn_prefix d @ ''999.log'' \<in> set names \<longrightarrow>
        generate_scenario_id d (Some names) = scn_prefix d @ ''1000'')
   \<and> (scn_prefix d @ ''999.log'' \<in> set names \<and> scn_prefix d @ ''1000.log'' \<in> set names \<longrightarrow>
        generate_scenario_id d (Some names) @ ''.log'' \<in> set names)"
  using generate_after_999[of d names] pattern_match_1000[of d] pattern_match_three[of tok name g]
  by simp

theorem generate_scenario_id_rollover_witness:
  "pattern_match ''2025_08_12'' ''SCN_2025_08_12_999.log'' = Some ''999''
   \<and> length ''999'' = 3 \<and> list_all is_digit ''999''
   \<and> generate_scenario_id ''2025-08-12'' (Some [''SCN_2025_08_12_999.log'']) = ''SCN_2025_08_12_1000''
   \<and> generate_scenario_id ''2025-08-12''
        (Some [''SCN_2025_08_12_999.log'', ''SCN_2025_08_12_1000.log'']) = ''SCN_2025_08_12_1000''
   \<and> generate_scenario_id ''2025-08-12''
        (Some [''SCN_2025_08_12_999.log'', ''SCN_2025_08_12_1000.log'']) @ ''.log''
       \<in> set [''SCN_2025_08_12_999.log'', ''SCN_2025_08_12_1000.log'']"
proof -
  have m: "pattern_match ''2025_08_12'' ''SCN_2025_08_12_999.log'' = Some ''999''"
    by code_simp
  note t1 = generate_scenario_id_rollover[of "''2025_08_12''" "''SCN_2025_08_12_999.log''"
      "''999''" "''2025-08-12''" "[''SCN_2025_08_12_999.log'']"]
  note t2 = generate_scenario_id_rollover[of "''2025_08_12''" "''SCN_2025_08_12_999.log''"
      "''999''" "''2025-08-12''" "[''SCN_2025_08_12_999.log'', ''SCN_2025_08_12_1000.log'']"]
  from t1 t2 m show ?thesis by (simp add: scn_prefix_def date_token_def)
qed

section \<open>Pending scenarios\<close>


















section \<open>Choosing an identifier\<close>

text \<open>
  Claim C2. When the operator declines the one pending identifier, or asks for a new one
  among several, or nothing is pending, \<open>choose_or_generate_scenario_id\<close> returns what
  \<open>generate_scenario_id\<close> returns. That function reads the \<open>.log\<close> files only, so the
  identifier it gives can be a pending one: the instance below is the one the operator
  has just declined.
\<close>

theorem choose_or_generate_falls_through:
  "(length (list_metadata_only_scenarios logs_dir d) = 1
      \<and> \<not> prompt_yes_no (list_metadata_only_scenarios logs_dir d ! 0) \<longrightarrow>
        choose_or_generate_scenario_id prompt_yes_no prompt_select d logs_dir
          = generate_scenario_id d logs_dir)
   \<and> (1 < length (list_metadata_only_scenarios logs_dir d)
      \<and> prompt_select (list_metadata_only_scenarios logs_dir d) = None \<longrightarrow>
        choose_or_generate_scenario_id prompt_yes_no prompt_select d logs_dir
          = generate_scenario_id d logs_dir)
   \<and> (list_metadata_only_scenarios logs_dir d = [] \<longrightarrow>
        choose_or_generate_scenario_id prompt_yes_no prompt_select d logs_dir
          = generate_scenario_id d logs_dir)"
  by (simp add: choose_or_generate_scenario_id_def Let_def)

theorem choose_or_generate_returns_pending:
  "list_metadata_only_scenarios (Some [''SCN_2025_08_12_001.metadata.json'']) ''2025-08-12''
     = [''SCN_2025_08_12_001'']
   \<and> choose_or_generate_scenario_id (\<lambda>sid. False) (\<lambda>options. None) ''2025-08-12''
       (Some [''SCN_2025_08_12_001.metadata.json'']) = ''SCN_2025_08_12_001''
   \<and> list_metadata_only_scenarios
       (Some [''SCN_2025_08_12_001.log'', ''SCN_2025_08_12_002.metadata.json'',
              ''SCN_2025_08_12_003.metadata.json'']) ''2025-08-12''
     = [''SCN_2025_08_12_002'', ''SCN_2025_08_12_003'']
   \<and> choose_or_generate_scenario_id (\<lambda>sid. False) (\<lambda>options. None) ''2025-08-12''
       (Some [''SCN_2025_08_12_001.log'', ''SCN_2025_08_12_002.metadata.json'',
              ''SCN_2025_08_12_003.metadata.json'']) = ''SCN_2025_08_12_002''
   \<and> list_metadata_only_scenarios None ''2025-08-12'' = []
   \<and> choose_or_generate_scenario_id (\<lambda>sid. False) (\<lambda>options. None) ''2025-08-12'' None
       = ''SCN_2025_08_12_001''"
proof -
  let ?d1 = "Some [''SCN_2025_08_12_001.metadata.json'']"
  let ?d2 = "Some [''SCN_2025_08_12_001.log'', ''SCN_2025_08_12_002.metadata.json'',
              ''SCN_2025_08_12_003.metadata.json'']"
  have p1: "list_metadata_only_scenarios ?d1 ''2025-08-12'' = [''SCN_2025_08_12_001'']"
    by code_simp
  have p2: "list_metadata_only_scenarios ?d2 ''2025-08-12''
      = [''SCN_2025_08_12_002'', ''SCN_2025_08_12_003'']"
    by code_simp
  have p3: "list_metadata_only_scenarios None ''2025-08-12'' = []"
    by (simp add: list_metadata_only_scenarios_def)
  have g1: "generate_scenario_id ''2025-08-12'' ?d1 = ''SCN_2025_08_12_001''"
    by code_simp
  have g2: "generate_scenario_id ''2025-08-12'' ?d2 = ''SCN_2025_08_12_002''"
    by code_simp
  have g3: "generate_scenario_id ''2025-08-12'' None = ''SCN_2025_08_12_001''"
    by code_simp
  note t1 = choose_or_generate_falls_through[of ?d1 "''2025-08-12''" "\<lambda>sid. False"
      "\<lambda>options. None", THEN conjunct1, rule_format]
  note t2 = choose_or_generate_falls_through[of ?d2 "''2025-08-12''" "\<lambda>sid. False"
      "\<lambda>options. None", THEN conjunct2, THEN conjunct1, rule_format]
  note t3 = choose_or_generate_falls_through[of None "''2025-08-12''" "\<lambda>sid. False"
      "\<lambda>options. None", THEN conjunct2, THEN conjunct2, rule_format, OF p3]
  have c1: "choose_or_generate_scenario_id (\<lambda>sid. False) (\<lambda>options. None) ''2025-08-12'' ?d1
      = ''SCN_2025_08_12_001''"
    using t1 by (simp add: p1 g1)
  have c2: "choose_or_generate_scenario_id (\<lambda>sid. False) (\<lambda>options. None) ''2025-08-12'' ?d2
      = ''SCN_2025_08_12_002''"
    using t2 by (simp add: p2 g2)
  have c3: "choose_or_generate_scenario_id (\<lambda>sid. False) (\<lambda>options. None) ''2025-08-12'' None
      = ''SCN_2025_08_12_001''"
    using t3 by (simp only: g3)
  show ?thesis by (intro conjI; fact)
qed

section \<open>The upsert on the rows of the index\<close>

lemma first_index_None: "first_index P xs = None \<longleftrightarrow> filter P xs = []"
  by (induction xs) auto

lemma first_index_Some:
  "first_index P xs = Some i \<longleftrightarrow> i < length xs \<and> P (xs ! i) \<and> (\<forall>j<i. \<not> P (xs ! j))"
proof (induction xs arbitrary: i)
  case Nil
  show ?case by simp
next
  case (Cons x xs)
  show ?case
  proof (cases "P x")
    case True
    then show ?thesis by (cases i) auto
  next
    case False
    show ?thesis
    proof (cases i)
      case 0
      with False show ?thesis by auto
    next
      case (Suc k)
      have "(\<forall>j<Suc k. \<not> P ((x # xs) ! j)) \<longleftrightarrow> (\<forall>j<k. \<not> P (xs ! j))"
        using False by (auto simp: less_Suc_eq_0_disj)
      then show ?thesis using False Suc Cons.IH[of k] by auto
    qed
  qed
qed

lemma filter_update_same:
  "i < length xs \<Longrightarrow> P (xs ! i) \<Longrightarrow> P y \<Longrightarrow>
     length (filter P (xs[i := y])) = length (filter P xs)"
proof (induction xs arbitrary: i)
  case Nil
  then show ?case by simp
next
  case (Cons x xs)
  then show ?case by (cases i) auto
qed

lemma keyed_new_row: "keyed (scenario_id a @ ''.log'') (new_row a c)"
  by (simp add: keyed_def new_row_def row_get_def)

lemma created_at_now_nonempty: "created_at_now a \<noteq> []"
  by (simp add: created_at_now_def)

lemma upsert_rows_found:
  "first_index (keyed (scenario_id a @ ''.log'')) rows = Some i \<Longrightarrow>
     upsert_rows a rows = rows[i := stored_row a (rows ! i)]"
  by (simp add: upsert_rows_def stored_row_def Let_def)

lemma upsert_rows_absent:
  "first_index (keyed (scenario_id a @ ''.log'')) rows = None \<Longrightarrow>
     upsert_rows a rows = rows @ [new_row a (PStr (created_at_now a))]"
  by (simp add: upsert_rows_def Let_def)

lemma keyed_stored_row: "keyed (scenario_id a @ ''.log'') (stored_row a r)"
  by (simp add: stored_row_def keyed_new_row)

lemma upsert_rows_count:
  "length (filter (keyed (scenario_id a @ ''.log'')) (upsert_rows a rows)) =
     max 1 (length (filter (keyed (scenario_id a @ ''.log'')) rows))"
proof (cases "first_index (keyed (scenario_id a @ ''.log'')) rows")
  case None
  then have "filter (keyed (scenario_id a @ ''.log'')) rows = []" by (simp add: first_index_None)
  then show ?thesis by (simp add: upsert_rows_absent[OF None] keyed_new_row)
next
  case (Some i)
  then have i: "i < length rows" "keyed (scenario_id a @ ''.log'') (rows ! i)"
    by (simp_all add: first_index_Some)
  then have "rows ! i \<in> set (filter (keyed (scenario_id a @ ''.log'')) rows)" by simp
  then have "1 \<le> length (filter (keyed (scenario_id a @ ''.log'')) rows)"
    by (metis One_nat_def Suc_leI length_pos_if_in_set)
  then show ?thesis
    by (simp add: upsert_rows_found[OF Some] filter_update_same[OF i keyed_stored_row] max_absorb2)
qed


lemma truthy_stored_created:
  "truthy (if truthy e then e else PStr (created_at_now a))"
  by (simp add: truthy_def created_at_now_nonempty)

lemma row_get_new_row_created: "row_get (new_row a c) ''created_at'' = c"
  by (simp add: row_get_def new_row_def)

lemma stored_row_again: "stored_row a (stored_row a r) = stored_row a r"
  by (simp add: stored_row_def row_get_new_row_created truthy_stored_created)

lemma stored_row_of_new: "stored_row a (new_row a (PStr (created_at_now a))) = new_row a (PStr (created_at_now a))"
  by (simp add: stored_row_def row_get_new_row_created truthy_def created_at_now_nonempty)

lemma upsert_rows_idem: "upsert_rows a (upsert_rows a rows) = upsert_rows a rows"
proof (cases "first_index (keyed (scenario_id a @ ''.log'')) rows")
  case None
  let ?F = "scenario_id a @ ''.log''"
  let ?n = "new_row a (PStr (created_at_now a))"
  have nk: "\<And>j. j < length rows \<Longrightarrow> \<not> keyed ?F (rows ! j)"
    using None by (metis first_index_None filter_empty_conv nth_mem)
  have "first_index (keyed ?F) (rows @ [?n]) = Some (length rows)"
    unfolding first_index_Some using nk by (simp add: nth_append keyed_new_row)
  then show ?thesis
    by (simp add: upsert_rows_absent[OF None] upsert_rows_found stored_row_of_new)
next
  case (Some i)
  let ?F = "scenario_id a @ ''.log''"
  let ?rows1 = "rows[i := stored_row a (rows ! i)]"
  from Some have i: "i < length rows" and before: "\<forall>j<i. \<not> keyed ?F (rows ! j)"
    by (simp_all add: first_index_Some)
  have "first_index (keyed ?F) ?rows1 = Some i"
    unfolding first_index_Some using i before by (simp add: keyed_stored_row)
  then have "upsert_rows a ?rows1 = ?rows1[i := stored_row a (?rows1 ! i)]"
    by (rule upsert_rows_found)
  also have "\<dots> = ?rows1" using i by (simp add: stored_row_again)
  finally show ?thesis by (simp add: upsert_rows_found[OF Some])
qed



section \<open>Reading and rewriting the index file\<close>

lemma writerows_ok:
  "list_all (\<lambda>r. \<not> wrong_fields r) rows \<Longrightarrow> writerows rows = (map dict_to_list rows, None)"
  by (induction rows) simp_all

lemma wrong_fields_new_row: "\<not> wrong_fields (new_row a c)"
  by (simp add: wrong_fields_def new_row_def fieldnames_def)

lemma wrong_fields_stored_row: "\<not> wrong_fields (stored_row a r)"
  by (simp add: stored_row_def wrong_fields_new_row)

lemma fst_fold_update:
  "fst ` set (fold (\<lambda>(k, v). AList.update k (f v)) kvs d) = fst ` set d \<union> fst ` set kvs"
proof (induction kvs arbitrary: d)
  case Nil
  show ?case by simp
next
  case (Cons kv kvs)
  obtain k v where kv: "kv = (k, v)" by (cases kv)
  have "fst ` set (AList.update k (f v) d) = insert k (fst ` set d)"
    by (simp add: dom_update)
  then show ?case by (simp add: kv Cons.IH)
qed

lemma fst_fold_update_keys:
  "fst ` set (fold (\<lambda>k. AList.update k v) ks d) = fst ` set d \<union> set ks"
proof (induction ks arbitrary: d)
  case Nil
  show ?case by simp
next
  case (Cons k ks)
  have "fst ` set (AList.update k v d) = insert k (fst ` set d)"
    by (simp add: dom_update)
  then show ?case by (simp add: Cons.IH)
qed

lemma dict_row_keys:
  "fst ` set (cols (dict_row header cells)) \<subseteq> set header"
proof -
  have z: "fst ` set (zip header cells) \<subseteq> set header"
    by (auto dest: set_zip_leftD)
  have d: "set (drop (length cells) header) \<subseteq> set header"
    by (rule set_drop_subset)
  show ?thesis
    using z d by (auto simp: dict_row_def Let_def fst_fold_update fst_fold_update_keys)
qed

lemma dict_row_restkey:
  "length cells \<le> length header \<Longrightarrow> restkey (dict_row header cells) = None"
  by (simp add: dict_row_def Let_def)

lemma dict_row_ok:
  assumes "set header \<subseteq> set fieldnames" "length cells \<le> length header"
  shows "\<not> wrong_fields (dict_row header cells)"
  using assms dict_row_keys[of header cells] dict_row_restkey[of cells header]
  by (auto simp: wrong_fields_def list_ex_iff)

lemma read_index_ok:
  assumes "set header \<subseteq> set fieldnames"
    "list_all (\<lambda>record. length record \<le> length header) records"
  shows "list_all (\<lambda>r. \<not> wrong_fields r) (read_index (Some (header # records)))"
  using assms by (auto simp: read_index_def list_all_iff dict_row_ok)

lemma upsert_rows_ok:
  assumes "list_all (\<lambda>r. \<not> wrong_fields r) rows"
  shows "list_all (\<lambda>r. \<not> wrong_fields r) (upsert_rows a rows)"
proof (cases "first_index (keyed (scenario_id a @ ''.log'')) rows")
  case None
  then show ?thesis using assms by (simp add: upsert_rows_absent wrong_fields_new_row)
next
  case (Some i)
  have "set (rows[i := stored_row a (rows ! i)]) \<subseteq> insert (stored_row a (rows ! i)) (set rows)"
    by (rule set_update_subset_insert)
  then show ?thesis
    using assms wrong_fields_stored_row[of a "rows ! i"]
    by (auto simp: upsert_rows_found[OF Some] list_all_iff)
qed

lemma reread_eq:
  "reread r = \<lparr>cols = map (\<lambda>k. (k, PStr (cell_str (row_get r k)))) fieldnames, restkey = None\<rparr>"
  by (simp add: reread_def dict_row_def dict_to_list_def fieldnames_def)

lemma row_get_reread:
  "k \<in> set fieldnames \<Longrightarrow> row_get (reread r) k = PStr (cell_str (row_get r k))"
  by (auto simp: reread_eq row_get_def fieldnames_def)

lemma cell_str_PStr: "cell_str (PStr s) = s"
  by (simp add: cell_str_def)

lemma dict_to_list_reread: "dict_to_list (reread r) = dict_to_list r"
  by (simp add: dict_to_list_def row_get_reread cell_str_PStr)

lemma wrong_fields_reread: "\<not> wrong_fields (reread r)"
  by (simp add: reread_eq wrong_fields_def list_ex_iff fieldnames_def)

lemma dict_to_list_nonempty: "dict_to_list r \<noteq> []"
  by (simp add: dict_to_list_def fieldnames_def)

lemma read_index_written:
  "read_index (Some (fieldnames # map dict_to_list rows)) = map reread rows"
proof -
  have "filter (\<lambda>r. r \<noteq> []) (map dict_to_list rows) = map dict_to_list rows"
    by (simp add: filter_id_conv dict_to_list_nonempty)
  then show ?thesis by (simp add: read_index_def reread_def)
qed

lemma of_char_digit_char: "d < 10 \<Longrightarrow> (of_char (digit_char d) :: nat) = 48 + d"
  by (simp add: digit_char_def)

lemma str_nat_last: "str_nat n \<noteq> [] \<and> last (str_nat n) = digit_char (n mod 10)"
  by (subst (1 2) str_nat.simps) simp

lemma str_int_last: "str_int i \<noteq> [] \<and> (of_char (last (str_int i)) :: nat) < 58"
proof -
  have "\<And>n. (of_char (last (str_nat n)) :: nat) < 58"
    by (simp add: str_nat_last of_char_digit_char)
  then show ?thesis by (simp add: str_int_def str_nat_last)
qed

lemma cell_str_log:
  "cell_str v = sid @ ''.log'' \<longleftrightarrow> v = PStr (sid @ ''.log'')"
proof (cases v)
  case PNone
  then show ?thesis by (simp add: cell_str_def)
next
  case (PStr s)
  then show ?thesis by (simp add: cell_str_def)
next
  case (PInt i)
  have "str_int i \<noteq> sid @ ''.log''"
  proof
    assume "str_int i = sid @ ''.log''"
    then have "last (str_int i) = CHR ''g''" by simp
    with str_int_last[of i] show False by simp
  qed
  with PInt show ?thesis by (simp add: cell_str_def)
qed

lemma keyed_reread: "keyed (sid @ ''.log'') (reread r) = keyed (sid @ ''.log'') r"
proof -
  have "''filename'' \<in> set fieldnames" by (simp add: fieldnames_def)
  then have "row_get (reread r) ''filename'' = PStr (cell_str (row_get r ''filename''))"
    by (rule row_get_reread)
  then show ?thesis using cell_str_log[of "row_get r ''filename''" sid] by (auto simp: keyed_def)
qed

lemma first_index_map:
  "(\<And>x. P (f x) = Q x) \<Longrightarrow> first_index P (map f xs) = first_index Q xs"
  by (induction xs) simp_all

lemma filter_keyed_reread:
  "length (filter (keyed (sid @ ''.log'')) (map reread rows))
     = length (filter (keyed (sid @ ''.log'')) rows)"
  by (induction rows) (simp_all add: keyed_reread)

lemma writerows_None:
  "snd (writerows rows) = None \<longleftrightarrow> list_all (\<lambda>r. \<not> wrong_fields r) rows"
  by (induction rows) (auto split: prod.splits)

lemma writerows_cells:
  "list_all (\<lambda>record. length record = length fieldnames) (fst (writerows rows))"
  by (induction rows) (auto simp: dict_to_list_def split: prod.splits)

lemma update_master_index_completes:
  assumes "fst (update_master_index a index) = None"
  shows "list_all (\<lambda>r. \<not> wrong_fields r) (upsert_rows a (read_index index))"
    and "update_master_index a index =
           (None, Some (fieldnames # map dict_to_list (upsert_rows a (read_index index))))"
proof -
  from assms have "snd (writerows (upsert_rows a (read_index index))) = None"
    by (simp add: update_master_index_def Let_def split: prod.splits)
  then show ok: "list_all (\<lambda>r. \<not> wrong_fields r) (upsert_rows a (read_index index))"
    by (simp add: writerows_None)
  show "update_master_index a index =
           (None, Some (fieldnames # map dict_to_list (upsert_rows a (read_index index))))"
    by (simp add: update_master_index_def Let_def writerows_ok[OF ok])
qed

lemma update_master_index_completes_iff:
  "fst (update_master_index a index) = None \<longleftrightarrow>
     list_all (\<lambda>r. \<not> wrong_fields r) (upsert_rows a (read_index index))"
  by (simp add: update_master_index_def Let_def writerows_None[symmetric] split: prod.splits)

lemma truthy_cell_str: "truthy c \<Longrightarrow> cell_str c \<noteq> []"
  by (cases c) (simp_all add: truthy_def cell_str_def str_int_last)

lemma upsert_rows_result:
  "\<exists>i c. first_index (keyed (scenario_id a @ ''.log'')) (upsert_rows a rows) = Some i
         \<and> i < length (upsert_rows a rows)
         \<and> upsert_rows a rows ! i = new_row a c \<and> truthy c"
proof (cases "first_index (keyed (scenario_id a @ ''.log'')) rows")
  case None
  let ?F = "scenario_id a @ ''.log''"
  let ?n = "new_row a (PStr (created_at_now a))"
  have nk: "\<And>j. j < length rows \<Longrightarrow> \<not> keyed ?F (rows ! j)"
    using None by (metis first_index_None filter_empty_conv nth_mem)
  have "first_index (keyed ?F) (rows @ [?n]) = Some (length rows)"
    unfolding first_index_Some using nk by (simp add: nth_append keyed_new_row)
  moreover have "truthy (PStr (created_at_now a))"
    by (simp add: truthy_def created_at_now_nonempty)
  ultimately show ?thesis
    unfolding upsert_rows_absent[OF None]
    by (intro exI[of _ "length rows"] exI[of _ "PStr (created_at_now a)"]) simp
next
  case (Some i)
  let ?F = "scenario_id a @ ''.log''"
  let ?c = "if truthy (row_get (rows ! i) ''created_at'')
            then row_get (rows ! i) ''created_at'' else PStr (created_at_now a)"
  from Some have i: "i < length rows" and before: "\<forall>j<i. \<not> keyed ?F (rows ! j)"
    by (simp_all add: first_index_Some)
  have "first_index (keyed ?F) (rows[i := stored_row a (rows ! i)]) = Some i"
    unfolding first_index_Some using i before by (simp add: keyed_stored_row)
  moreover have "stored_row a (rows ! i) = new_row a ?c" by (simp add: stored_row_def)
  moreover have "truthy ?c" by (rule truthy_stored_created)
  ultimately show ?thesis
    unfolding upsert_rows_found[OF Some] using i
    by (intro exI[of _ i] exI[of _ ?c]) simp
qed

lemma dict_to_list_new_row_cell:
  "dict_to_list (new_row a (PStr (cell_str c))) = dict_to_list (new_row a c)"
  by (simp add: dict_to_list_def fieldnames_def row_get_def new_row_def cell_str_PStr)

lemma stored_row_reread_new:
  assumes "truthy c"
  shows "stored_row a (reread (new_row a c)) = new_row a (PStr (cell_str c))"
proof -
  have "''created_at'' \<in> set fieldnames" by (simp add: fieldnames_def)
  then have "row_get (reread (new_row a c)) ''created_at'' = PStr (cell_str c)"
    by (simp add: row_get_reread row_get_new_row_created)
  then show ?thesis
    using truthy_cell_str[OF assms] by (simp add: stored_row_def truthy_def)
qed

lemma update_master_index_again:
  assumes "fst (update_master_index a index) = None"
  shows "update_master_index a (snd (update_master_index a index)) = update_master_index a index"
proof -
  let ?F = "scenario_id a @ ''.log''"
  let ?rows1 = "upsert_rows a (read_index index)"
  note u1 = update_master_index_completes(2)[OF assms]
  from upsert_rows_result[of a "read_index index"] obtain i c where
    fi: "first_index (keyed ?F) ?rows1 = Some i" and i: "i < length ?rows1"
    and ri: "?rows1 ! i = new_row a c" and tc: "truthy c" by blast
  have rd: "read_index (snd (update_master_index a index)) = map reread ?rows1"
    by (simp add: u1 read_index_written)
  have fi2: "first_index (keyed ?F) (map reread ?rows1) = Some i"
    using fi by (simp add: first_index_map[where Q = "keyed ?F"] keyed_reread)
  have up2: "upsert_rows a (map reread ?rows1) =
      (map reread ?rows1)[i := new_row a (PStr (cell_str c))]"
    using i by (simp add: upsert_rows_found[OF fi2] ri stored_row_reread_new[OF tc])
  have ok2: "list_all (\<lambda>r. \<not> wrong_fields r) ((map reread ?rows1)[i := new_row a (PStr (cell_str c))])"
  proof -
    have "set ((map reread ?rows1)[i := new_row a (PStr (cell_str c))])
        \<subseteq> insert (new_row a (PStr (cell_str c))) (set (map reread ?rows1))"
      by (rule set_update_subset_insert)
    then show ?thesis
      using wrong_fields_new_row wrong_fields_reread by (auto simp: list_all_iff)
  qed
  have "map dict_to_list ((map reread ?rows1)[i := new_row a (PStr (cell_str c))])
      = (map dict_to_list ?rows1)[i := dict_to_list (?rows1 ! i)]"
    by (simp add: map_update dict_to_list_reread dict_to_list_new_row_cell ri o_def)
  also have "\<dots> = map dict_to_list ?rows1"
    using i by (simp add: map_update[symmetric])
  finally have cells: "map dict_to_list ((map reread ?rows1)[i := new_row a (PStr (cell_str c))])
      = map dict_to_list ?rows1" .
  have "update_master_index a (snd (update_master_index a index)) =
      (None, Some (fieldnames # map dict_to_list ?rows1))"
    by (simp add: update_master_index_def[of a "snd (update_master_index a index)"] rd up2
          writerows_ok[OF ok2] cells Let_def)
  then show ?thesis by (simp add: u1)
qed

section \<open>The example index\<close>

lemma example_rows_eq:
  "example_rows =
     [\<lparr>cols = [(''date'', PStr ''2025-08-11''), (''filename'', PStr ''SCN_2025_08_11_001.log''),
               (''file_size'', PStr ''7''), (''record_count'', PStr ''1''),
               (''metadata_file'', PStr ''SCN_2025_08_11_001.metadata.json''),
               (''created_at'', PStr ''2025-08-11T08:00:00Z''), (''test_description'', PStr ''Idle''),
               (''log_link'', PStr []), (''metadata_link'', PStr [])], restkey = None\<rparr>,
      \<lparr>cols = [(''date'', PStr ''2025-08-12''), (''filename'', PStr ''SCN_2025_08_12_001.log''),
               (''file_size'', PStr ''0''), (''record_count'', PStr ''0''),
               (''metadata_file'', PStr ''SCN_2025_08_12_001.metadata.json''),
               (''created_at'', PStr ''2025-08-12T09:00:00Z''), (''test_description'', PStr ''Pending''),
               (''log_link'', PStr []), (''metadata_link'', PStr [])], restkey = None\<rparr>]"
  by (simp add: example_rows_def example_index_def read_index_def dict_row_def)

lemma example_rows_unique: "\<forall>f. length (filter (keyed f) example_rows) \<le> 1"
  by (simp add: example_rows_eq keyed_def row_get_def)


lemma duplicate_rows_eq:
  "duplicate_rows =
     [\<lparr>cols = [(''filename'', PStr ''SCN_2025_08_12_001.log''),
               (''created_at'', PStr ''2025-08-12T09:00:00Z'')], restkey = None\<rparr>,
      \<lparr>cols = [(''filename'', PStr ''SCN_2025_08_12_001.log''),
               (''created_at'', PStr ''2025-08-12T09:30:00Z'')], restkey = None\<rparr>]"
  by (simp add: duplicate_rows_def duplicate_index_def read_index_def dict_row_def)

section \<open>The upsert\<close>


lemma update_master_index_reread:
  assumes "fst (update_master_index a index) = None"
  shows "read_index (snd (update_master_index a index)) = map reread (upsert_rows a (read_index index))"
  by (simp add: update_master_index_completes(2)[OF assms] read_index_written)

lemma example_completes: "fst (update_master_index example_args example_index) = None"
  by code_simp






lemma duplicate_completes: "fst (update_master_index example_args duplicate_index) = None"
  by code_simp

lemma duplicate_count:
  "length (filter (keyed (scenario_id example_args @ ''.log'')) duplicate_rows) = 2"
  by (simp add: duplicate_rows_eq keyed_def row_get_def example_args_def)

text \<open>
  Claim C5, as amended. Applying the upsert to its own result changes nothing, whatever
  the starting rows; when at most one of the starting rows is keyed by the call's
  filename, the result, after one application as after two, holds exactly one such row.
  On the index file: when a call completes, the same call on the file it wrote
  completes too and writes the same file.
\<close>

theorem update_master_index_idempotent:
  "upsert_rows a (upsert_rows a rows) = upsert_rows a rows
   \<and> (length (filter (keyed (scenario_id a @ ''.log'')) rows) \<le> 1 \<longrightarrow>
        length (filter (keyed (scenario_id a @ ''.log'')) (upsert_rows a rows)) = 1
        \<and> length (filter (keyed (scenario_id a @ ''.log'')) (upsert_rows a (upsert_rows a rows))) = 1)
   \<and> (fst (update_master_index a index) = None \<longrightarrow>
        update_master_index a (snd (update_master_index a index)) = update_master_index a index)"
proof -
  have a1: "upsert_rows a (upsert_rows a rows) = upsert_rows a rows"
    by (rule upsert_rows_idem)
  have a2: "length (filter (keyed (scenario_id a @ ''.log'')) rows) \<le> 1 \<longrightarrow>
        length (filter (keyed (scenario_id a @ ''.log'')) (upsert_rows a rows)) = 1
        \<and> length (filter (keyed (scenario_id a @ ''.log'')) (upsert_rows a (upsert_rows a rows))) = 1"
    by (simp add: upsert_rows_idem upsert_rows_count max_absorb1)
  have a3: "fst (update_master_index a index) = None \<longrightarrow>
        update_master_index a (snd (update_master_index a index)) = update_master_index a index"
    by (rule impI) (rule update_master_index_again)
  from a1 a2 a3 show ?thesis by (intro conjI)
qed

theorem update_master_index_idempotent_witness:
  "length (filter (keyed (scenario_id example_args @ ''.log'')) example_rows) \<le> 1
   \<and> fst (update_master_index example_args example_index) = None
   \<and> upsert_rows example_args (upsert_rows example_args example_rows)
       = upsert_rows example_args example_rows
   \<and> length (filter (keyed (scenario_id example_args @ ''.log''))
        (upsert_rows example_args (upsert_rows example_args example_rows))) = 1
   \<and> update_master_index example_args (snd (update_master_index example_args example_index))
       = update_master_index example_args example_index"
proof -
  have h: "length (filter (keyed (scenario_id example_args @ ''.log'')) example_rows) \<le> 1"
    using example_rows_unique by blast
  note t = update_master_index_idempotent[of example_args example_rows example_index]
  from t have t1: "upsert_rows example_args (upsert_rows example_args example_rows)
       = upsert_rows example_args example_rows" by (rule conjunct1)
  from t h have t2: "length (filter (keyed (scenario_id example_args @ ''.log''))
        (upsert_rows example_args (upsert_rows example_args example_rows))) = 1" by blast
  from t example_completes
  have t3: "update_master_index example_args (snd (update_master_index example_args example_index))
       = update_master_index example_args example_index" by blast
  note c = example_completes
  show ?thesis by (intro conjI; fact)
qed

text \<open>
  The claim as stated promises one row for the filename from every starting index. From
  an index that holds two rows of the filename, two applications leave two: in the rows,
  and in the file that the second call writes.
\<close>

theorem update_master_index_idempotent_counterexample:
  "\<not> (\<forall>a rows. upsert_rows a (upsert_rows a rows) = upsert_rows a rows
         \<and> length (filter (keyed (scenario_id a @ ''.log''))
              (upsert_rows a (upsert_rows a rows))) = 1)
   \<and> length (filter (keyed (scenario_id example_args @ ''.log''))
        (upsert_rows example_args (upsert_rows example_args duplicate_rows))) = 2
   \<and> fst (update_master_index example_args duplicate_index) = None
   \<and> fst (update_master_index example_args (snd (update_master_index example_args duplicate_index))) = None
   \<and> length (filter (keyed (scenario_id example_args @ ''.log''))
        (read_index (snd (update_master_index example_args
           (snd (update_master_index example_args duplicate_index)))))) = 2"
proof -
  have two: "length (filter (keyed (scenario_id example_args @ ''.log''))
        (upsert_rows example_args (upsert_rows example_args duplicate_rows))) = 2"
    by (simp add: upsert_rows_idem upsert_rows_count duplicate_count)
  have "\<not> (\<forall>a rows. upsert_rows a (upsert_rows a rows) = upsert_rows a rows
         \<and> length (filter (keyed (scenario_id a @ ''.log''))
              (upsert_rows a (upsert_rows a rows))) = 1)"
  proof
    assume "\<forall>a rows. upsert_rows a (upsert_rows a rows) = upsert_rows a rows
         \<and> length (filter (keyed (scenario_id a @ ''.log''))
              (upsert_rows a (upsert_rows a rows))) = 1"
    then have "length (filter (keyed (scenario_id example_args @ ''.log''))
        (upsert_rows example_args (upsert_rows example_args duplicate_rows))) = 1" by blast
    with two show False by simp
  qed
  then have neg: "\<not> (\<forall>a rows. upsert_rows a (upsert_rows a rows) = upsert_rows a rows
         \<and> length (filter (keyed (scenario_id a @ ''.log''))
              (upsert_rows a (upsert_rows a rows))) = 1)" .
  have ag: "update_master_index example_args
      (snd (update_master_index example_args duplicate_index))
        = update_master_index example_args duplicate_index"
    by (rule update_master_index_again[OF duplicate_completes])
  have c1: "length (filter (keyed (scenario_id example_args @ ''.log''))
        (read_index (snd (update_master_index example_args duplicate_index)))) = 2"
    by (simp only: update_master_index_reread[OF duplicate_completes] filter_keyed_reread
          duplicate_rows_def[symmetric] upsert_rows_count duplicate_count)
  have c2: "fst (update_master_index example_args
      (snd (update_master_index example_args duplicate_index))) = None"
    by (simp only: ag duplicate_completes)
  have c3: "length (filter (keyed (scenario_id example_args @ ''.log''))
        (read_index (snd (update_master_index example_args
           (snd (update_master_index example_args duplicate_index)))))) = 2"
    by (simp only: ag c1)
  note c0 = duplicate_completes
  show ?thesis by (intro conjI; fact)
qed



text \<open>
  Claim C6. On an index file whose header lacks columns of the schema, the call does
  not stop: whatever columns of the schema the header holds, when no record is longer
  than the header the call raises nothing and rewrites the file under the full header,
  the cells of the absent columns empty. The check for required columns is in
  \<open>backfill_index_links.main\<close> only.
\<close>

theorem update_master_index_accepts_short_header:
  assumes "set header \<subseteq> set fieldnames"
    and "list_all (\<lambda>record. length record \<le> length header) records"
  shows "update_master_index a (Some (header # records)) =
           (None, Some (fieldnames #
              map dict_to_list (upsert_rows a (read_index (Some (header # records))))))"
  using writerows_ok[OF upsert_rows_ok[OF read_index_ok[OF assms], of a]]
  by (simp add: update_master_index_def Let_def)

theorem update_master_index_accepts_short_header_witness:
  "missing_columns short_index = [''metadata_file'', ''log_link'', ''metadata_link'']
   \<and> update_master_index example_args short_index =
       (None,
        Some [[''date'', ''filename'', ''file_size'', ''record_count'', ''metadata_file'',
               ''created_at'', ''test_description'', ''log_link'', ''metadata_link''],
              [''2025-08-11'', ''SCN_2025_08_11_001.log'', [], [], [], [], [], [], []],
              [''2025-08-12'', ''SCN_2025_08_12_001.log'', ''12'', ''2'',
               ''SCN_2025_08_12_001.metadata.json'', ''2025-08-12T10:00:00Z'', ''Throttle test'',
               ''https://github.com/owner/repo/blob/main/logs/2025-08-12/SCN_2025_08_12_001.log'',
               ''https://github.com/owner/repo/blob/main/logs/2025-08-12/SCN_2025_08_12_001.metadata.json'']])"
proof -
  have h1: "set [''date'', ''filename''] \<subseteq> set fieldnames"
    by (simp add: fieldnames_def)
  have h2: "list_all (\<lambda>record. length record \<le> length [''date'', ''filename''])
              [[''2025-08-11'', ''SCN_2025_08_11_001.log'']]"
    by simp
  have m: "missing_columns short_index = [''metadata_file'', ''log_link'', ''metadata_link'']"
    by code_simp
  have v: "fieldnames # map dict_to_list (upsert_rows example_args (read_index short_index)) =
       [[''date'', ''filename'', ''file_size'', ''record_count'', ''metadata_file'',
               ''created_at'', ''test_description'', ''log_link'', ''metadata_link''],
              [''2025-08-11'', ''SCN_2025_08_11_001.log'', [], [], [], [], [], [], []],
              [''2025-08-12'', ''SCN_2025_08_12_001.log'', ''12'', ''2'',
               ''SCN_2025_08_12_001.metadata.json'', ''2025-08-12T10:00:00Z'', ''Throttle test'',
               ''https://github.com/owner/repo/blob/main/logs/2025-08-12/SCN_2025_08_12_001.log'',
               ''https://github.com/owner/repo/blob/main/logs/2025-08-12/SCN_2025_08_12_001.metadata.json'']]"
    by code_simp
  from update_master_index_accepts_short_header[OF h1 h2, of example_args] m v
  show ?thesis by (simp add: short_index_def)
qed

section \<open>Size and record count\<close>




end
